theory Spec2Isabelle
  imports
    Complex_Main
    "HOL-Library.AList"
    "HOL-Library.Char_ord"
    "HOL-Library.List_Lexorder"
    "HOL-Library.Product_Lexorder"
    "HOL-Library.Multiset"
begin

chapter \<open>Acadion: the face-match attendance engine\<close>

text \<open>
  The development embeds three parts of the repository:
  \<^item> the attendance page of the web client (\<^verbatim>\<open>TakeAttendance\<close>, the second component of
    \<^verbatim>\<open>src/unnamed/part_002\<close>): its state, \<^verbatim>\<open>fetchStudents\<close>, \<^verbatim>\<open>markAttendance\<close>,
    \<^verbatim>\<open>handleFaceRecognition\<close>, \<^verbatim>\<open>saveAttendance\<close> and the two displayed counters;
  \<^item> the \<^verbatim>\<open>attendance\<close> table of the SQL schema (\<^verbatim>\<open>src/unnamed/part_006\<close> and
    \<^verbatim>\<open>src/backend/migrations/001_initial_schema.sql\<close>) with its uniqueness constraint;
  \<^item> \<^verbatim>\<open>FaceService.compare_faces\<close> as printed in \<^verbatim>\<open>src/docs/DEVELOPMENT.md\<close>.

  The Python service behind \<^verbatim>\<open>/api/attendance/mark-face\<close> is not among the sources. The
  matcher, the assignment resolver and the response it builds are therefore modelled from
  the specification; every such definition says so.
\<close>

section \<open>The attendance page of the web client\<close>

subsection \<open>Data\<close>

text \<open>
  \<^verbatim>\<open>status: 'present' | 'absent' | 'late'\<close> and \<^verbatim>\<open>method: 'manual' | 'face_recognition'\<close>.
\<close>

datatype Status = present | absent | late

datatype Method = manual | face_recognition

text \<open>\<^verbatim>\<open>interface Student { user_id; name; email; is_face_registered }\<close>\<close>

record Student =
  user_id :: string
  name :: string
  email :: string
  is_face_registered :: bool

text \<open>
  \<^verbatim>\<open>interface AttendanceRecord { student_id; status; method; confidence_score? }\<close>.
  The field \<^verbatim>\<open>method\<close> is called \<open>att_method\<close> here. At run time \<^verbatim>\<open>student_id\<close> can be
  \<^verbatim>\<open>undefined\<close> (a record built by \<^verbatim>\<open>markAttendance\<close> for a key that was not in the map, or
  from a response without a top-level \<^verbatim>\<open>student_id\<close>), so it is optional in the model, as
  \<^verbatim>\<open>confidence_score\<close> is in the source.
\<close>

record AttendanceRecord =
  student_id :: "string option"
  status :: Status
  att_method :: Method
  confidence_score :: "real option"

text \<open>
  One entry of \<^verbatim>\<open>recognized_students\<close> in the response of the mark-face endpoint. The client
  reads \<^verbatim>\<open>student.student_id\<close>, \<^verbatim>\<open>student.face_index\<close> and \<^verbatim>\<open>student.similarity_score\<close>; the
  specification calls the first field \<open>identity_id\<close> and the tuple a MatchCandidate or, once
  resolved, a ResolvedMatch.
\<close>

record ResolvedMatch =
  face_index :: nat
  identity_id :: string
  similarity_score :: real

text \<open>
  The response body \<^verbatim>\<open>result\<close> (typed \<^verbatim>\<open>any\<close> in the source). The handler reads
  \<^verbatim>\<open>result.success\<close>, \<^verbatim>\<open>result.student_id\<close>, \<^verbatim>\<open>result.similarity_score\<close>, the three counters,
  \<^verbatim>\<open>result.recognized_students\<close>, \<^verbatim>\<open>result.unrecognized_faces\<close> and \<^verbatim>\<open>result.message\<close>.
  \<open>success\<close> is the truthiness of \<^verbatim>\<open>result.success\<close>; a field that may be \<^verbatim>\<open>undefined\<close> is an
  option. The body is taken to be a JSON object of this shape, so the logging that follows
  the state update cannot throw.
\<close>

record FaceResults =
  success :: bool
  res_student_id :: "string option"
  res_similarity_score :: "real option"
  faces_detected :: int
  faces_recognized :: int
  faces_unrecognized :: int
  recognized_students :: "ResolvedMatch list option"
  unrecognized_faces :: "nat list option"
  message :: string

text \<open>
  The component state, as far as the modelled functions read or write it. The
  \<^verbatim>\<open>Record<string, AttendanceRecord>\<close> is an association list in insertion order. An object
  spread with one computed key, \<^verbatim>\<open>{...prev, [k]: v}\<close>, and an assignment \<^verbatim>\<open>obj[k] = v\<close> both
  replace the value of an existing key in place and append a new key: that is
  \<^const>\<open>AList.update\<close>. Insertion order is the order in which \<^verbatim>\<open>Object.values\<close> enumerates
  keys that are not array indices, such as the UUIDs of the schema; keys that are array
  indices come first in JavaScript, in ascending order. The properties of the roster and
  of saving are therefore stated on lookups, key sets, counts and multisets, which do not
  depend on the order of enumeration.
\<close>

record State =
  students :: "Student list"
  attendance :: "(string \<times> AttendanceRecord) list"
  loading :: bool
  saving :: bool
  uploadingPhoto :: bool
  faceResults :: "FaceResults option"

text \<open>The initial values of the \<^verbatim>\<open>useState\<close> hooks.\<close>

definition initial_state :: State where
  "initial_state =
     \<lparr>students = [], attendance = [], loading = True, saving = False,
      uploadingPhoto = False, faceResults = None\<rparr>"

subsection \<open>fetchStudents\<close>

text \<open>
  \<^verbatim>\<open>
  if (response.ok) {
    const data = await response.json();
    setStudents(data);
    const initialAttendance: Record<string, AttendanceRecord> = {};
    data.forEach((student: Student) => {
      initialAttendance[student.user_id] = {
        student_id: student.user_id, status: 'absent', method: 'manual' };
    });
    setAttendance(initialAttendance);
  }
  ... finally { setLoading(false); }
  \<close>
  The argument is \<open>Some data\<close> when the roster request answered with \<^verbatim>\<open>response.ok\<close>, and
  \<open>None\<close> when it did not or when \<^verbatim>\<open>fetch\<close> threw.
\<close>

definition initial_record :: "Student \<Rightarrow> AttendanceRecord" where
  "initial_record student =
     \<lparr>student_id = Some (user_id student), status = absent, att_method = manual,
      confidence_score = None\<rparr>"

definition initialAttendance :: "Student list \<Rightarrow> (string \<times> AttendanceRecord) list" where
  "initialAttendance data =
     foldl (\<lambda>acc student. AList.update (user_id student) (initial_record student) acc) [] data"

definition fetchStudents :: "Student list option \<Rightarrow> State \<Rightarrow> State" where
  "fetchStudents response st =
     (case response of
        None \<Rightarrow> st\<lparr>loading := False\<rparr>
      | Some data \<Rightarrow>
          st\<lparr>students := data, attendance := initialAttendance data, loading := False\<rparr>)"

subsection \<open>markAttendance\<close>

text \<open>
  \<^verbatim>\<open>
  setAttendance(prev => ({
    ...prev,
    [studentId]: { ...prev[studentId], status, method: 'manual' }
  }));
  \<close>
  Spreading \<^verbatim>\<open>prev[studentId]\<close> copies every field of the old record; spreading
  \<^verbatim>\<open>undefined\<close> copies nothing.
\<close>

definition marked_record :: "AttendanceRecord option \<Rightarrow> Status \<Rightarrow> AttendanceRecord" where
  "marked_record old st =
     (case old of
        None \<Rightarrow> \<lparr>student_id = None, status = st, att_method = manual, confidence_score = None\<rparr>
      | Some r \<Rightarrow> r\<lparr>status := st, att_method := manual\<rparr>)"

definition markAttendance :: "string \<Rightarrow> Status \<Rightarrow> State \<Rightarrow> State" where
  "markAttendance studentId st s =
     s\<lparr>attendance :=
         AList.update studentId (marked_record (map_of (attendance s) studentId) st)
           (attendance s)\<rparr>"

subsection \<open>handleFaceRecognition\<close>

text \<open>
  What the request to \<^verbatim>\<open>/api/attendance/mark-face\<close> came to: \<^verbatim>\<open>fetch\<close> or \<^verbatim>\<open>response.json()\<close>
  threw (the \<^verbatim>\<open>catch\<close> block runs), or a response arrived with its \<^verbatim>\<open>response.ok\<close> flag and
  its parsed body.
\<close>

datatype mark_face_outcome = fetch_throws | responded bool FaceResults

text \<open>
  A computed property key is converted to a string: \<^verbatim>\<open>[undefined]\<close> is the key
  \<^verbatim>\<open>"undefined"\<close>.
\<close>

definition property_key :: "string option \<Rightarrow> string" where
  "property_key k = (case k of None \<Rightarrow> ''undefined'' | Some s \<Rightarrow> s)"

text \<open>The object the \<^verbatim>\<open>catch\<close> block stores.\<close>

definition network_error_results :: FaceResults where
  "network_error_results =
     \<lparr>success = False, res_student_id = None, res_similarity_score = None,
      faces_detected = 0, faces_recognized = 0, faces_unrecognized = 0,
      recognized_students = None, unrecognized_faces = None,
      message = ''Network error occurred''\<rparr>"

text \<open>
  \<^verbatim>\<open>
  const file = event.target.files?.[0];
  if (!file) return;
  setUploadingPhoto(true);
  setFaceResults(null);
  ...
  try {
    const response = await fetch(`/api/attendance/mark-face?subject_id=${classId}`, ...);
    const result = await response.json();
    setFaceResults(result);
    if (response.ok && result.success) {
      setAttendance(prev => ({
        ...prev,
        [result.student_id]: {
          student_id: result.student_id, status: 'present',
          method: 'face_recognition', confidence_score: result.similarity_score }
      }));
      ... console.log ...
    } else { ... console.log ... }
  } catch (error) {
    setFaceResults({ success: false, message: 'Network error occurred',
      faces_detected: 0, faces_recognized: 0, faces_unrecognized: 0 });
  } finally { setUploadingPhoto(false); ... }
  \<close>
  The first argument says whether a file was chosen. The handler sends one request, the
  upload itself; it never posts to \<^verbatim>\<open>/api/attendance/manual\<close>.
\<close>

definition recognized_record :: "FaceResults \<Rightarrow> AttendanceRecord" where
  "recognized_record result =
     \<lparr>student_id = res_student_id result, status = present, att_method = face_recognition,
      confidence_score = res_similarity_score result\<rparr>"

definition handleFaceRecognition :: "bool \<Rightarrow> mark_face_outcome \<Rightarrow> State \<Rightarrow> State" where
  "handleFaceRecognition file_chosen outcome s =
     (if \<not> file_chosen then s
      else
        (let s1 = s\<lparr>uploadingPhoto := True, faceResults := None\<rparr>;
             s2 =
               (case outcome of
                  fetch_throws \<Rightarrow> s1\<lparr>faceResults := Some network_error_results\<rparr>
                | responded ok result \<Rightarrow>
                    (let s' = s1\<lparr>faceResults := Some result\<rparr>
                     in if ok \<and> success result
                        then s'\<lparr>attendance :=
                                 AList.update (property_key (res_student_id result))
                                   (recognized_record result) (attendance s')\<rparr>
                        else s'))
         in s2\<lparr>uploadingPhoto := False\<rparr>))"

subsection \<open>saveAttendance\<close>






subsection \<open>The displayed counters\<close>

text \<open>
  \<^verbatim>\<open>
  const presentCount = Object.values(attendance).filter(a => a.status === 'present').length;
  const absentCount = students.length - presentCount;
  \<close>
  JavaScript numbers do not truncate a negative difference, so the counters are integers.
\<close>

definition presentCount :: "State \<Rightarrow> int" where
  "presentCount s = int (length (filter (\<lambda>a. status a = present) (map snd (attendance s))))"

definition absentCount :: "State \<Rightarrow> int" where
  "absentCount s = int (length (students s)) - presentCount s"

section \<open>The attendance table of the database\<close>

text \<open>
  \<^verbatim>\<open>
  CREATE TABLE attendance (
      id UUID PRIMARY KEY DEFAULT uuid_generate_v4(),
      subject_id UUID REFERENCES subjects(subject_id) ON DELETE CASCADE,
      student_id UUID REFERENCES users(user_id) ON DELETE CASCADE,
      date DATE NOT NULL,
      status VARCHAR(20) NOT NULL CHECK (status IN ('present', 'absent', 'late')),
      marked_by UUID REFERENCES users(user_id),
      confidence_score FLOAT,
      method VARCHAR(20) DEFAULT 'manual' CHECK (method IN ('manual', 'face_recognition')),
      created_at TIMESTAMP DEFAULT NOW(),
      UNIQUE(subject_id, student_id, date)
  );
  \<close>
  (\<^verbatim>\<open>src/unnamed/part_006\<close>; the migration \<^verbatim>\<open>001_initial_schema.sql\<close> declares the same
  columns and \<^verbatim>\<open>UNIQUE(student_id, subject_id, date)\<close>.) A row is modelled as stored, after
  the defaults are filled in. Columns without \<^verbatim>\<open>NOT NULL\<close> are options; the two \<^verbatim>\<open>CHECK\<close>s
  are the types of \<open>row_status\<close> and \<open>row_method\<close>. Foreign keys play no part here.
\<close>

record attendance_row =
  row_id :: nat
  subject_id :: "string option"
  row_student_id :: "string option"
  date :: string
  row_status :: Status
  marked_by :: "string option"
  row_confidence_score :: "real option"
  row_method :: "Method option"
  created_at :: "nat option"

type_synonym attendance_table = "attendance_row list"

datatype sql_error = unique_violation_pkey | unique_violation_key

text \<open>
  Two rows collide on \<^verbatim>\<open>UNIQUE(subject_id, student_id, date)\<close> when the three columns are
  equal and none is \<^verbatim>\<open>NULL\<close>: in SQL two \<^verbatim>\<open>NULL\<close>s are never equal, so rows with a missing
  subject or student never collide.
\<close>

definition key_collides :: "attendance_row \<Rightarrow> attendance_row \<Rightarrow> bool" where
  "key_collides new old \<longleftrightarrow>
     subject_id new \<noteq> None \<and> row_student_id new \<noteq> None \<and>
     subject_id new = subject_id old \<and> row_student_id new = row_student_id old \<and>
     date new = date old"

text \<open>
  \<^verbatim>\<open>INSERT INTO attendance ... VALUES (...)\<close>: the row is appended unless it breaks the
  primary key or the uniqueness constraint, in which case the statement fails and the
  table is as before.
\<close>

definition insert_row :: "attendance_row \<Rightarrow> attendance_table \<Rightarrow> sql_error + attendance_table" where
  "insert_row new tbl =
     (if list_ex (\<lambda>old. row_id old = row_id new) tbl then Inl unique_violation_pkey
      else if list_ex (key_collides new) tbl then Inl unique_violation_key
      else Inr (tbl @ [new]))"

text \<open>
  \<^verbatim>\<open>INSERT ... ON CONFLICT (student_id, subject_id, date) DO NOTHING\<close>, the form the
  migration uses for its sample rows: a collision on the named constraint skips the row
  without an error.
\<close>

definition insert_on_conflict_do_nothing ::
  "attendance_row \<Rightarrow> attendance_table \<Rightarrow> sql_error + attendance_table" where
  "insert_on_conflict_do_nothing new tbl =
     (if list_ex (key_collides new) tbl then Inr tbl else insert_row new tbl)"

text \<open>
  \<^verbatim>\<open>DELETE FROM attendance WHERE ...\<close> removes the rows that satisfy the condition. This is
  also what \<^verbatim>\<open>ON DELETE CASCADE\<close> does to the rows of a deleted subject or student.
\<close>

datatype statement =
    INSERT attendance_row
  | INSERT_ON_CONFLICT_DO_NOTHING attendance_row
  | DELETE_WHERE "attendance_row \<Rightarrow> bool"

definition execute :: "statement \<Rightarrow> attendance_table \<Rightarrow> sql_error + attendance_table" where
  "execute stmt tbl =
     (case stmt of
        INSERT new \<Rightarrow> insert_row new tbl
      | INSERT_ON_CONFLICT_DO_NOTHING new \<Rightarrow> insert_on_conflict_do_nothing new tbl
      | DELETE_WHERE condition \<Rightarrow> Inr (filter (\<lambda>r. \<not> condition r) tbl))"

text \<open>A session of statements against the table; a failed statement changes nothing.\<close>

fun execute_all :: "statement list \<Rightarrow> attendance_table \<Rightarrow> attendance_table" where
  "execute_all [] tbl = tbl"
| "execute_all (stmt # stmts) tbl =
     (case execute stmt tbl of
        Inl err \<Rightarrow> execute_all stmts tbl
      | Inr tbl' \<Rightarrow> execute_all stmts tbl')"

text \<open>The rows recorded for one class, one identity and one date.\<close>

definition rows_for :: "string \<Rightarrow> string \<Rightarrow> string \<Rightarrow> attendance_table \<Rightarrow> attendance_row list" where
  "rows_for class_id identity d tbl =
     filter (\<lambda>r. subject_id r = Some class_id \<and> row_student_id r = Some identity \<and> date r = d) tbl"

section \<open>The documented face matcher\<close>

text \<open>
  \<^verbatim>\<open>
  def compare_faces(self, known_encodings, face_encoding, threshold=0.6):
      distances = face_recognition.face_distance(known_encodings, face_encoding)
      return distances < threshold
  \<close>
  (\<^verbatim>\<open>src/docs/DEVELOPMENT.md\<close>.) \<^verbatim>\<open>face_recognition.face_distance\<close> belongs to a library and is
  a parameter of the model. The default of the keyword argument is the \<open>None\<close> case. The
  comparison of the array with the number is element by element.
\<close>

definition default_threshold :: real where
  "default_threshold = 0.6"

definition compare_faces ::
  "(real list list \<Rightarrow> real list \<Rightarrow> real list) \<Rightarrow> real list list \<Rightarrow> real list \<Rightarrow> real option
     \<Rightarrow> bool list" where
  "compare_faces face_distance known_encodings face_encoding threshold =
     (let t = (case threshold of None \<Rightarrow> default_threshold | Some t' \<Rightarrow> t');
          distances = face_distance known_encodings face_encoding
      in map (\<lambda>d. d < t) distances)"

text \<open>
  The library documents \<^verbatim>\<open>face_distance\<close> as the Euclidean distance between each known
  encoding and the given one. The examples below use it on short vectors.
\<close>

definition euclidean_distance :: "real list list \<Rightarrow> real list \<Rightarrow> real list" where
  "euclidean_distance known enc =
     map (\<lambda>k. sqrt (sum_list (map (\<lambda>(x, y). (x - y)\<^sup>2) (zip k enc)))) known"

text \<open>
  Modelled from the spec: the conversion of a distance into a similarity score, which the
  data model asks for before the matching layer (``\<open>similarity = 1 - distance\<close> for a
  distance bounded in [0,1]''). No source file performs it.
\<close>

definition similarity_of_distance :: "real \<Rightarrow> real" where
  "similarity_of_distance d = 1 - d"

section \<open>The matching pipeline of the mark-face endpoint\<close>

text \<open>
  The service that answers \<^verbatim>\<open>POST /api/attendance/mark-face\<close> is not among the sources; the
  client above is its only caller there. This section follows the specification.
\<close>

text \<open>
  Modelled from the spec: a MatchCandidate is a tuple (\<open>face_index\<close>, \<open>identity_id\<close>,
  \<open>similarity_score\<close>), the same shape as a ResolvedMatch.
\<close>

type_synonym MatchCandidate = ResolvedMatch

text \<open>
  Modelled from the spec: the Similarity Matcher, missing from the sources. ``Every
  returned (\<open>identity_id\<close>, score) pair with score \<open>\<ge>\<close> threshold becomes a MatchCandidate;
  pairs below threshold are discarded immediately.'' \<open>results\<close> is the registry's answer
  to the top-k query for the face \<open>i\<close>.
\<close>

definition similarity_matcher :: "real \<Rightarrow> nat \<Rightarrow> (string \<times> real) list \<Rightarrow> MatchCandidate list" where
  "similarity_matcher threshold i results =
     map (\<lambda>p. \<lparr>face_index = i, identity_id = fst p, similarity_score = snd p\<rparr>)
       (filter (\<lambda>p. threshold \<le> snd p) results)"

text \<open>
  Modelled from the spec: ``collect all MatchCandidates across all faces in the
  submission into one list''. The detector numbers the faces of one photo
  \<open>0, 1, \<dots>, N - 1\<close>; \<open>answers ! i\<close> is the registry's answer for face \<open>i\<close>.
\<close>

definition collect_candidates :: "real \<Rightarrow> (string \<times> real) list list \<Rightarrow> MatchCandidate list" where
  "collect_candidates threshold answers =
     concat (map (\<lambda>(i, results). similarity_matcher threshold i results) (enumerate 0 answers))"

text \<open>
  Modelled from the spec: the order in which the Assignment Resolver visits the
  candidates, missing from the sources. ``Sort descending by \<open>similarity_score\<close>''; on an
  exact tie ``break ties by ascending \<open>face_index\<close>, then by some stable identity ordering''.
  The key is compared lexicographically, identities as strings.
\<close>

definition resolution_key :: "MatchCandidate \<Rightarrow> real \<times> nat \<times> string" where
  "resolution_key c = (- similarity_score c, face_index c, identity_id c)"

definition resolution_order :: "MatchCandidate list \<Rightarrow> MatchCandidate list" where
  "resolution_order candidates = sort_key resolution_key candidates"

text \<open>
  Modelled from the spec: the greedy pass of the Assignment Resolver, missing from the
  sources. ``Iterate in that order, greedily accepting a candidate into the ResolvedMatch
  set if and only if both its \<open>face_index\<close> and its \<open>identity_id\<close> are still unclaimed; mark
  both claimed on acceptance; skip (discard) candidates whose face or identity is already
  claimed.'' The first two arguments are the claimed faces and the claimed identities.
\<close>

fun greedy_accept :: "nat list \<Rightarrow> string list \<Rightarrow> MatchCandidate list \<Rightarrow> ResolvedMatch list" where
  "greedy_accept claimed_faces claimed_ids [] = []"
| "greedy_accept claimed_faces claimed_ids (c # cs) =
     (if face_index c \<notin> set claimed_faces \<and> identity_id c \<notin> set claimed_ids
      then c # greedy_accept (face_index c # claimed_faces) (identity_id c # claimed_ids) cs
      else greedy_accept claimed_faces claimed_ids cs)"

definition assignment_resolver :: "MatchCandidate list \<Rightarrow> ResolvedMatch list" where
  "assignment_resolver candidates = greedy_accept [] [] (resolution_order candidates)"

text \<open>
  Modelled from the spec: the response of a submission that ran to completion (section 6
  of the specification), missing from the sources. ``Faces with no surviving candidate
  become unrecognized.'' The specified response has no top-level \<^verbatim>\<open>student_id\<close> or
  \<^verbatim>\<open>similarity_score\<close>. The list of recognized students is in the order of acceptance.
  The wording of the message is not specified; the text below stands for any summary.
\<close>

definition submission_response :: "real \<Rightarrow> (string \<times> real) list list \<Rightarrow> FaceResults" where
  "submission_response threshold answers =
     (let resolved = assignment_resolver (collect_candidates threshold answers);
          unrecognized = filter (\<lambda>i. i \<notin> set (map face_index resolved)) [0..<length answers]
      in \<lparr>success = True, res_student_id = None, res_similarity_score = None,
          faces_detected = int (length answers),
          faces_recognized = int (length resolved),
          faces_unrecognized = int (length unrecognized),
          recognized_students = Some resolved,
          unrecognized_faces = Some unrecognized,
          message = ''Attendance processed''\<rparr>)"

text \<open>
  Modelled from the spec: the two errors that abort a submission as a whole, and
  below the response to them (``\<open>success=false\<close>, no attendance is written, and the caller
  is told to retry''), missing from the sources. The specification fixes \<open>success\<close> only;
  the counters are zero and the lists are absent, as in the object the client stores
  after a network error.
\<close>

datatype submission_error = InvalidImage | RegistryUnavailable

text \<open>
  Modelled from the spec: the body answered for either error, missing from the sources.
\<close>

definition failure_response :: "submission_error \<Rightarrow> FaceResults" where
  "failure_response err =
     \<lparr>success = False, res_student_id = None, res_similarity_score = None,
      faces_detected = 0, faces_recognized = 0, faces_unrecognized = 0,
      recognized_students = None, unrecognized_faces = None,
      message = (case err of InvalidImage \<Rightarrow> ''Invalid image''
                 | RegistryUnavailable \<Rightarrow> ''Registry unavailable, please retry'')\<rparr>"

text \<open>
  Modelled from the spec: the batch of per-face registry queries of one submission,
  retried a bounded number of times, missing from the sources. \<open>registry attempt i\<close> is
  the answer to the query for face \<open>i\<close> in the given attempt, \<open>None\<close> when the registry is
  unavailable or the request times out. An attempt succeeds when every query of the batch
  is answered; after \<open>retries\<close> further attempts the submission gives up.
\<close>

definition query_batch :: "(nat \<Rightarrow> (string \<times> real) list option) \<Rightarrow> nat \<Rightarrow> (string \<times> real) list list option" where
  "query_batch registry_now n = those (map registry_now [0..<n])"

text \<open>
  Modelled from the spec: the bounded retry of the batch, missing from the sources.
\<close>

fun query_with_retries ::
  "nat \<Rightarrow> (nat \<Rightarrow> nat \<Rightarrow> (string \<times> real) list option) \<Rightarrow> nat \<Rightarrow> nat \<Rightarrow> (string \<times> real) list list option" where
  "query_with_retries 0 registry attempt n = query_batch (registry attempt) n"
| "query_with_retries (Suc retries) registry attempt n =
     (case query_batch (registry attempt) n of
        Some answers \<Rightarrow> Some answers
      | None \<Rightarrow> query_with_retries retries registry (Suc attempt) n)"

text \<open>
  Modelled from the spec: one submission against the persistence store, missing from the
  sources. \<open>photo\<close> is \<open>None\<close> for a malformed or unreadable payload (``rejected before
  detection runs, with no attendance side effects'') and \<open>Some n\<close> for a photo in which
  \<open>n\<close> faces were detected. ``Registry unavailability aborts the submission as a whole.''
  What the decision stage writes for a completed submission is the parameter \<open>persist\<close>.
\<close>

definition mark_face_submission ::
  "real \<Rightarrow> nat \<Rightarrow> (ResolvedMatch list \<Rightarrow> 'store \<Rightarrow> 'store) \<Rightarrow> nat option \<Rightarrow>
     (nat \<Rightarrow> nat \<Rightarrow> (string \<times> real) list option) \<Rightarrow> 'store \<Rightarrow> FaceResults \<times> 'store" where
  "mark_face_submission threshold retries persist photo registry store =
     (case photo of
        None \<Rightarrow> (failure_response InvalidImage, store)
      | Some n \<Rightarrow>
          (case query_with_retries retries registry 0 n of
             None \<Rightarrow> (failure_response RegistryUnavailable, store)
           | Some answers \<Rightarrow>
               (submission_response threshold answers,
                persist (assignment_resolver (collect_candidates threshold answers)) store)))"

text \<open>
  Modelled from the spec: when a submission fails as a whole. The payload is malformed
  (\<open>InvalidImage\<close>), or in every attempt, the first and the \<open>retries\<close> that follow, the
  query for at least one of the detected faces gets no answer (\<open>RegistryUnavailable\<close>
  after the retries are exhausted).
\<close>

definition submission_fails ::
  "nat \<Rightarrow> nat option \<Rightarrow> (nat \<Rightarrow> nat \<Rightarrow> (string \<times> real) list option) \<Rightarrow> bool" where
  "submission_fails retries photo registry \<longleftrightarrow>
     (case photo of
        None \<Rightarrow> True
      | Some n \<Rightarrow>
          list_all (\<lambda>attempt. list_ex (\<lambda>i. registry attempt i = None) [0..<n])
            [0..<Suc retries])"

text \<open>
  The last clause of claim C2 taken by the letter, for comparison with the resolver:
  ``when several candidates compete for the same face or identity the one with the
  highest similarity score wins'', that is, every accepted match has the highest score
  among the candidates for its face and among the candidates for its identity.
\<close>

definition best_candidate_wins :: "MatchCandidate list \<Rightarrow> ResolvedMatch list \<Rightarrow> bool" where
  "best_candidate_wins candidates resolved \<longleftrightarrow>
     list_all (\<lambda>r. list_all (\<lambda>c.
         (face_index c = face_index r \<or> identity_id c = identity_id r)
           \<longrightarrow> similarity_score c \<le> similarity_score r) candidates) resolved"

section \<open>Example data\<close>

text \<open>Two enrolled students and the page after their roster has loaded.\<close>

definition alice :: Student where
  "alice = \<lparr>user_id = ''A'', name = ''Alice'', email = ''alice@example.org'',
             is_face_registered = True\<rparr>"

definition bob :: Student where
  "bob = \<lparr>user_id = ''B'', name = ''Bob'', email = ''bob@example.org'',
           is_face_registered = True\<rparr>"

definition roster_state :: State where
  "roster_state = fetchStudents (Some [alice, bob]) initial_state"

text \<open>
  A successful response for a group photo in which both students were recognized. Its
  top-level \<^verbatim>\<open>student_id\<close> and \<^verbatim>\<open>similarity_score\<close> are those of the first recognized student.
\<close>

definition group_photo_results :: FaceResults where
  "group_photo_results =
     \<lparr>success = True, res_student_id = Some ''A'', res_similarity_score = Some 0.82,
      faces_detected = 2, faces_recognized = 2, faces_unrecognized = 0,
      recognized_students =
        Some [\<lparr>face_index = 0, identity_id = ''A'', similarity_score = 0.82\<rparr>,
              \<lparr>face_index = 1, identity_id = ''B'', similarity_score = 0.65\<rparr>],
      unrecognized_faces = Some [],
      message = ''2 students recognized''\<rparr>"

definition recognized_state :: State where
  "recognized_state =
     handleFaceRecognition True (responded True group_photo_results) roster_state"


text \<open>A stored row for Alice in one class on one day, and a second mark for the same key.\<close>

definition first_mark :: attendance_row where
  "first_mark =
     \<lparr>row_id = 1, subject_id = Some ''CS101'', row_student_id = Some ''A'',
      date = ''2025-09-01'', row_status = present, marked_by = Some ''T1'',
      row_confidence_score = Some 0.82, row_method = Some face_recognition,
      created_at = Some 100\<rparr>"

definition second_mark :: attendance_row where
  "second_mark =
     \<lparr>row_id = 2, subject_id = Some ''CS101'', row_student_id = Some ''A'',
      date = ''2025-09-01'', row_status = present, marked_by = Some ''T1'',
      row_confidence_score = None, row_method = Some manual,
      created_at = Some 200\<rparr>"

text \<open>
  Candidates of one photo. Face 0 resembles Bob (0.95) more than Alice (0.9); face 1
  resembles Alice (0.8).
\<close>

definition contested_candidates :: "MatchCandidate list" where
  "contested_candidates =
     [\<lparr>face_index = 0, identity_id = ''A'', similarity_score = 0.9\<rparr>,
      \<lparr>face_index = 0, identity_id = ''B'', similarity_score = 0.95\<rparr>,
      \<lparr>face_index = 1, identity_id = ''A'', similarity_score = 0.8\<rparr>]"

text \<open>
  The specification's conflict scenario: two faces have the same identity as their top
  candidate, with scores 0.75 and 0.90.
\<close>

definition spec_conflict_candidates :: "MatchCandidate list" where
  "spec_conflict_candidates =
     [\<lparr>face_index = 0, identity_id = ''C'', similarity_score = 0.75\<rparr>,
      \<lparr>face_index = 1, identity_id = ''C'', similarity_score = 0.90\<rparr>]"

text \<open>Two faces with the same top candidate and the same score, face 1 listed first.\<close>

definition tied_candidates :: "MatchCandidate list" where
  "tied_candidates =
     [\<lparr>face_index = 1, identity_id = ''C'', similarity_score = 0.9\<rparr>,
      \<lparr>face_index = 0, identity_id = ''C'', similarity_score = 0.9\<rparr>]"

text \<open>
  The specification's three-face scenario with threshold 0.6: best candidates 0.82 for A,
  0.65 for B, and 0.40 for the third face. A registry that answers it, one that never
  answers, and a store that keeps the resolved matches it is given.
\<close>

definition scenario_answers :: "(string \<times> real) list list" where
  "scenario_answers = [[(''A'', 0.82)], [(''B'', 0.65)], [(''C'', 0.40)]]"

definition registry_up :: "nat \<Rightarrow> nat \<Rightarrow> (string \<times> real) list option" where
  "registry_up attempt i = (if i < length scenario_answers then Some (scenario_answers ! i) else Some [])"

definition registry_down :: "nat \<Rightarrow> nat \<Rightarrow> (string \<times> real) list option" where
  "registry_down attempt i = None"

definition append_matches :: "ResolvedMatch list \<Rightarrow> ResolvedMatch list \<Rightarrow> ResolvedMatch list" where
  "append_matches resolved store = store @ resolved"

section \<open>Auxiliary facts\<close>

subsection \<open>Association lists\<close>

lemma filter_update_other:
  "filter (\<lambda>p. fst p \<noteq> k) (AList.update k v al) = filter (\<lambda>p. fst p \<noteq> k) al"
  by (induction al) auto

subsection \<open>The page\<close>






lemma map_of_markAttendance:
  "map_of (attendance (markAttendance studentId st s)) =
     (map_of (attendance s))(studentId \<mapsto> marked_record (map_of (attendance s) studentId) st)"
  by (simp add: markAttendance_def update_conv')

text \<open>The only branch of the handler that touches the attendance map.\<close>

lemma attendance_handleFaceRecognition:
  "attendance (handleFaceRecognition file_chosen outcome s) =
     (case outcome of
        fetch_throws \<Rightarrow> attendance s
      | responded ok result \<Rightarrow>
          if file_chosen \<and> ok \<and> success result
          then AList.update (property_key (res_student_id result)) (recognized_record result)
                 (attendance s)
          else attendance s)"
  by (simp add: handleFaceRecognition_def Let_def split: mark_face_outcome.splits)




lemma length_filter_status:
  "length (filter (\<lambda>a. status a = present) rs) + length (filter (\<lambda>a. status a = absent) rs)
     + length (filter (\<lambda>a. status a = late) rs) = length rs"
proof (induction rs)
  case Nil
  show ?case by simp
next
  case (Cons r rs)
  then show ?case by (cases "status r") simp_all
qed

lemma roster_state_eq:
  "roster_state =
     \<lparr>students = [alice, bob],
      attendance =
        [(''A'', \<lparr>student_id = Some ''A'', status = absent, att_method = manual,
                  confidence_score = None\<rparr>),
         (''B'', \<lparr>student_id = Some ''B'', status = absent, att_method = manual,
                  confidence_score = None\<rparr>)],
      loading = False, saving = False, uploadingPhoto = False, faceResults = None\<rparr>"
  by (simp add: roster_state_def fetchStudents_def initial_state_def initialAttendance_def
      initial_record_def alice_def bob_def)

lemma recognized_state_eq:
  "recognized_state =
     \<lparr>students = [alice, bob],
      attendance =
        [(''A'', \<lparr>student_id = Some ''A'', status = present, att_method = face_recognition,
                  confidence_score = Some 0.82\<rparr>),
         (''B'', \<lparr>student_id = Some ''B'', status = absent, att_method = manual,
                  confidence_score = None\<rparr>)],
      loading = False, saving = False, uploadingPhoto = False,
      faceResults = Some group_photo_results\<rparr>"
  by (simp add: roster_state_eq recognized_state_def handleFaceRecognition_def
      recognized_record_def property_key_def Let_def)
     (simp add: group_photo_results_def)

subsection \<open>The attendance table\<close>

lemma rows_for_append:
  "rows_for c i d (tbl @ [new]) =
     rows_for c i d tbl @
       (if subject_id new = Some c \<and> row_student_id new = Some i \<and> date new = d
        then [new] else [])"
  by (simp add: rows_for_def)

lemma rows_for_empty_if_no_collision:
  assumes "\<not> list_ex (key_collides new) tbl"
    and "subject_id new = Some c" and "row_student_id new = Some i" and "date new = d"
  shows "rows_for c i d tbl = []"
proof -
  have "\<And>r. r \<in> set tbl \<Longrightarrow>
          \<not> (subject_id r = Some c \<and> row_student_id r = Some i \<and> date r = d)"
    using assms by (auto simp: list_ex_iff key_collides_def)
  then show ?thesis by (simp add: rows_for_def filter_empty_conv)
qed

lemma insert_row_unique:
  assumes "insert_row new tbl = Inr tbl'" and "length (rows_for c i d tbl) \<le> 1"
  shows "length (rows_for c i d tbl') \<le> 1"
proof -
  from assms(1) have nc: "\<not> list_ex (key_collides new) tbl" and eq: "tbl' = tbl @ [new]"
    by (auto simp: insert_row_def split: if_splits)
  show ?thesis
  proof (cases "subject_id new = Some c \<and> row_student_id new = Some i \<and> date new = d")
    case True
    then have "rows_for c i d tbl = []"
      using rows_for_empty_if_no_collision [OF nc] by simp
    then show ?thesis by (simp add: eq rows_for_append)
  next
    case False
    then have "rows_for c i d tbl' = rows_for c i d tbl"
      unfolding eq rows_for_append by simp
    then show ?thesis using assms(2) by simp
  qed
qed

lemma execute_unique:
  assumes "execute stmt tbl = Inr tbl'" and "length (rows_for c i d tbl) \<le> 1"
  shows "length (rows_for c i d tbl') \<le> 1"
proof (cases stmt)
  case (INSERT new)
  then show ?thesis using assms insert_row_unique by (simp add: execute_def)
next
  case (INSERT_ON_CONFLICT_DO_NOTHING new)
  then show ?thesis
    using assms insert_row_unique
    by (auto simp: execute_def insert_on_conflict_do_nothing_def split: if_splits)
next
  case (DELETE_WHERE condition)
  with assms(1) have "rows_for c i d tbl' = filter (\<lambda>r. \<not> condition r) (rows_for c i d tbl)"
    by (auto simp: execute_def rows_for_def conj_commute)
  then have "length (rows_for c i d tbl') \<le> length (rows_for c i d tbl)"
    by simp
  with assms(2) show ?thesis by simp
qed

lemma execute_all_unique:
  "length (rows_for c i d tbl) \<le> 1 \<Longrightarrow> length (rows_for c i d (execute_all stmts tbl)) \<le> 1"
proof (induction stmts arbitrary: tbl)
  case Nil
  then show ?case by simp
next
  case (Cons stmt stmts)
  show ?case
  proof (cases "execute stmt tbl")
    case (Inl err)
    then show ?thesis using Cons by simp
  next
    case (Inr tbl')
    then have "length (rows_for c i d tbl') \<le> 1"
      using execute_unique Cons.prems by blast
    then show ?thesis using Cons.IH Inr by simp
  qed
qed

lemma collides_if_row_present:
  assumes "rows_for c i d tbl \<noteq> []"
    and "subject_id new = Some c" and "row_student_id new = Some i" and "date new = d"
  shows "list_ex (key_collides new) tbl"
proof -
  from assms(1) obtain r where "r \<in> set (rows_for c i d tbl)"
    by (cases "rows_for c i d tbl") auto
  then have "r \<in> set tbl" and "key_collides new r"
    using assms(2-4) by (auto simp: rows_for_def key_collides_def)
  then show ?thesis by (auto simp: list_ex_iff)
qed

subsection \<open>Distances\<close>

lemma euclidean_distance_1d: "euclidean_distance [[a]] [b] = [\<bar>a - b\<bar>]"
  by (simp add: euclidean_distance_def)


subsection \<open>The assignment resolver\<close>

lemma greedy_accept_subset: "set (greedy_accept fs ids cs) \<subseteq> set cs"
  by (induction cs arbitrary: fs ids) auto

lemma greedy_accept_unclaimed:
  "r \<in> set (greedy_accept fs ids cs) \<Longrightarrow> face_index r \<notin> set fs \<and> identity_id r \<notin> set ids"
proof (induction cs arbitrary: fs ids)
  case Nil
  then show ?case by simp
next
  case (Cons c cs)
  show ?case
  proof (cases "face_index c \<notin> set fs \<and> identity_id c \<notin> set ids")
    case True
    with Cons.prems
    have "r = c \<or> r \<in> set (greedy_accept (face_index c # fs) (identity_id c # ids) cs)"
      by simp
    then show ?thesis
    proof
      assume "r = c"
      with True show ?thesis by simp
    next
      assume "r \<in> set (greedy_accept (face_index c # fs) (identity_id c # ids) cs)"
      from Cons.IH [OF this] show ?thesis by simp
    qed
  next
    case False
    with Cons.prems have "r \<in> set (greedy_accept fs ids cs)" by auto
    from Cons.IH [OF this] show ?thesis .
  qed
qed

lemma greedy_accept_distinct_faces: "distinct (map face_index (greedy_accept fs ids cs))"
proof (induction cs arbitrary: fs ids)
  case Nil
  show ?case by simp
next
  case (Cons c cs)
  have "face_index c \<notin> face_index ` set (greedy_accept (face_index c # fs) (identity_id c # ids) cs)"
  proof
    assume "face_index c \<in> face_index ` set (greedy_accept (face_index c # fs) (identity_id c # ids) cs)"
    then obtain r where r: "r \<in> set (greedy_accept (face_index c # fs) (identity_id c # ids) cs)"
      and eq: "face_index r = face_index c" by auto
    from greedy_accept_unclaimed [OF r] eq show False by simp
  qed
  then show ?case using Cons.IH by simp
qed

lemma greedy_accept_distinct_ids: "distinct (map identity_id (greedy_accept fs ids cs))"
proof (induction cs arbitrary: fs ids)
  case Nil
  show ?case by simp
next
  case (Cons c cs)
  have "identity_id c \<notin> identity_id ` set (greedy_accept (face_index c # fs) (identity_id c # ids) cs)"
  proof
    assume "identity_id c \<in> identity_id ` set (greedy_accept (face_index c # fs) (identity_id c # ids) cs)"
    then obtain r where r: "r \<in> set (greedy_accept (face_index c # fs) (identity_id c # ids) cs)"
      and eq: "identity_id r = identity_id c" by auto
    from greedy_accept_unclaimed [OF r] eq show False by simp
  qed
  then show ?case using Cons.IH by simp
qed

lemma greedy_accept_dominated:
  assumes "sorted (map resolution_key cs)" and "c \<in> set cs"
    and "c \<notin> set (greedy_accept fs ids cs)"
  shows "face_index c \<in> set fs \<or> identity_id c \<in> set ids \<or>
         (\<exists>r \<in> set (greedy_accept fs ids cs).
            (face_index r = face_index c \<or> identity_id r = identity_id c)
            \<and> resolution_key r \<le> resolution_key c)"
  using assms
proof (induction cs arbitrary: fs ids)
  case Nil
  then show ?case by simp
next
  case (Cons x cs)
  have sorted_tl: "sorted (map resolution_key cs)" using Cons.prems(1) by simp
  have head_le: "\<And>y. y \<in> set cs \<Longrightarrow> resolution_key x \<le> resolution_key y"
    using Cons.prems(1) by simp
  show ?case
  proof (cases "face_index x \<notin> set fs \<and> identity_id x \<notin> set ids")
    case True
    then have out: "greedy_accept fs ids (x # cs)
        = x # greedy_accept (face_index x # fs) (identity_id x # ids) cs"
      by simp
    with Cons.prems(3) have cx: "c \<noteq> x"
      and notin: "c \<notin> set (greedy_accept (face_index x # fs) (identity_id x # ids) cs)"
      by auto
    with Cons.prems(2) have cin: "c \<in> set cs" by simp
    from Cons.IH [OF sorted_tl cin notin]
    consider "face_index c = face_index x" | "identity_id c = identity_id x"
      | "face_index c \<in> set fs" | "identity_id c \<in> set ids"
      | "\<exists>r \<in> set (greedy_accept (face_index x # fs) (identity_id x # ids) cs).
            (face_index r = face_index c \<or> identity_id r = identity_id c)
            \<and> resolution_key r \<le> resolution_key c"
      by auto
    then show ?thesis
    proof cases
      case 1
      then show ?thesis using head_le [OF cin] out by auto
    next
      case 2
      then show ?thesis using head_le [OF cin] out by auto
    next
      case 3
      then show ?thesis by simp
    next
      case 4
      then show ?thesis by simp
    next
      case 5
      then show ?thesis using out by auto
    qed
  next
    case False
    then have out: "greedy_accept fs ids (x # cs) = greedy_accept fs ids cs" by auto
    show ?thesis
    proof (cases "c = x")
      case True
      with False show ?thesis by auto
    next
      case False
      with Cons.prems(2) have cin: "c \<in> set cs" by simp
      from Cons.prems(3) out have "c \<notin> set (greedy_accept fs ids cs)" by simp
      from Cons.IH [OF sorted_tl cin this] show ?thesis using out by simp
    qed
  qed
qed

lemma resolution_key_inj: "inj resolution_key"
  by (rule injI) (simp add: resolution_key_def)

lemma resolution_key_le_iff:
  "resolution_key r \<le> resolution_key c \<longleftrightarrow>
     similarity_score c < similarity_score r \<or>
     similarity_score c = similarity_score r \<and>
       (face_index r < face_index c \<or>
        face_index r = face_index c \<and> identity_id r \<le> identity_id c)"
  by (auto simp: resolution_key_def)

lemma resolution_key_less_iff:
  "resolution_key r < resolution_key c \<longleftrightarrow>
     similarity_score c < similarity_score r \<or>
     similarity_score c = similarity_score r \<and>
       (face_index r < face_index c \<or>
        face_index r = face_index c \<and> identity_id r < identity_id c)"
  by (auto simp: resolution_key_def)

lemma resolution_order_sorted: "sorted (map resolution_key (resolution_order cs))"
  by (simp add: resolution_order_def)

lemma resolution_order_mset: "mset (resolution_order cs) = mset cs"
  by (simp add: resolution_order_def)

lemma resolution_order_set: "set (resolution_order cs) = set cs"
  by (simp add: resolution_order_def)

lemma resolution_order_permutation:
  "mset cs' = mset cs \<Longrightarrow> resolution_order cs' = resolution_order cs"
  unfolding resolution_order_def
  by (rule sort_key_eq_sort_key) (auto intro: inj_on_subset [OF resolution_key_inj])

lemma assignment_resolver_dominated:
  assumes "c \<in> set cs" and "c \<notin> set (assignment_resolver cs)"
  shows "\<exists>r \<in> set (assignment_resolver cs).
            (face_index r = face_index c \<or> identity_id r = identity_id c)
            \<and> resolution_key r \<le> resolution_key c"
proof -
  have "c \<in> set (resolution_order cs)"
    using assms(1) by (simp add: resolution_order_set)
  from greedy_accept_dominated [OF resolution_order_sorted this, of "[]" "[]"] assms(2)
  show ?thesis by (simp add: assignment_resolver_def)
qed

lemma assignment_resolver_subset: "set (assignment_resolver cs) \<subseteq> set cs"
  using greedy_accept_subset [of "[]" "[]" "resolution_order cs"]
  by (simp add: assignment_resolver_def resolution_order_set)

lemma assignment_resolver_distinct_faces: "distinct (map face_index (assignment_resolver cs))"
  by (simp add: assignment_resolver_def greedy_accept_distinct_faces)

lemma assignment_resolver_distinct_ids: "distinct (map identity_id (assignment_resolver cs))"
  by (simp add: assignment_resolver_def greedy_accept_distinct_ids)

subsection \<open>The response and the submission\<close>

lemma collect_candidates_face:
  "c \<in> set (collect_candidates threshold answers) \<Longrightarrow> face_index c < length answers"
  by (auto simp: collect_candidates_def similarity_matcher_def in_set_enumerate_eq)

lemma collect_candidates_score:
  "c \<in> set (collect_candidates threshold answers) \<Longrightarrow> threshold \<le> similarity_score c"
  by (auto simp: collect_candidates_def similarity_matcher_def)

lemma length_filter_mem:
  assumes "distinct (map f rs)" and "\<And>r. r \<in> set rs \<Longrightarrow> f r < n"
  shows "length (filter (\<lambda>i. i \<in> set (map f rs)) [0..<n]) = length rs"
proof -
  have "set (filter (\<lambda>i. i \<in> set (map f rs)) [0..<n]) = set (map f rs)"
    using assms(2) by auto
  moreover have "distinct (filter (\<lambda>i. i \<in> set (map f rs)) [0..<n])" by simp
  ultimately have "length (filter (\<lambda>i. i \<in> set (map f rs)) [0..<n]) = card (set (map f rs))"
    using distinct_card by metis
  also have "\<dots> = length (map f rs)" using assms(1) by (rule distinct_card)
  finally show ?thesis by simp
qed

lemma submission_response_counts:
  "faces_recognized (submission_response threshold answers)
     + faces_unrecognized (submission_response threshold answers) = int (length answers)"
proof -
  let ?resolved = "assignment_resolver (collect_candidates threshold answers)"
  let ?in = "\<lambda>i. i \<in> set (map face_index ?resolved)"
  have bound: "\<And>r. r \<in> set ?resolved \<Longrightarrow> face_index r < length answers"
    using assignment_resolver_subset collect_candidates_face by blast
  have rec: "length (filter ?in [0..<length answers]) = length ?resolved"
    using length_filter_mem [OF assignment_resolver_distinct_faces bound] by simp
  have "length (filter ?in [0..<length answers])
          + length (filter (\<lambda>i. \<not> ?in i) [0..<length answers]) = length [0..<length answers]"
    by (rule sum_length_filter_compl)
  with rec have "length ?resolved + length (filter (\<lambda>i. \<not> ?in i) [0..<length answers])
                   = length answers"
    by simp
  then show ?thesis
    by (simp add: submission_response_def Let_def del: set_map) 
qed

lemma those_map_None: "those (map f xs) = None \<longleftrightarrow> (\<exists>x \<in> set xs. f x = None)"
  by (induction xs) (auto split: option.splits)

lemma those_length: "those xs = Some ys \<Longrightarrow> length ys = length xs"
  by (induction xs arbitrary: ys) (auto split: option.splits)

lemma query_batch_None: "query_batch reg n = None \<longleftrightarrow> list_ex (\<lambda>i. reg i = None) [0..<n]"
  by (simp add: query_batch_def those_map_None list_ex_iff)

lemma query_batch_length: "query_batch reg n = Some answers \<Longrightarrow> length answers = n"
  unfolding query_batch_def using those_length by fastforce

lemma query_with_retries_None:
  "query_with_retries retries registry attempt n = None \<longleftrightarrow>
     list_all (\<lambda>k. query_batch (registry k) n = None) [attempt..<attempt + Suc retries]"
proof (induction retries arbitrary: attempt)
  case 0
  show ?case by simp
next
  case (Suc retries)
  have split: "[attempt..<attempt + Suc (Suc retries)] = attempt # [Suc attempt..<Suc attempt + Suc retries]"
    by (simp add: upt_rec)
  show ?case
    unfolding split using Suc.IH [of "Suc attempt"] by (auto split: option.splits)
qed

lemma query_with_retries_length:
  "query_with_retries retries registry attempt n = Some answers \<Longrightarrow> length answers = n"
proof (induction retries arbitrary: attempt)
  case 0
  then show ?case using query_batch_length by simp
next
  case (Suc retries)
  then show ?case using query_batch_length by (auto split: option.splits)
qed

lemma submission_fails_iff:
  "submission_fails retries photo registry \<longleftrightarrow>
     (case photo of None \<Rightarrow> True | Some n \<Rightarrow> query_with_retries retries registry 0 n = None)"
  by (simp add: submission_fails_def query_with_retries_None query_batch_None split: option.splits)

lemma success_submission_response: "success (submission_response threshold answers)"
  by (simp add: submission_response_def Let_def)

lemma success_failure_response: "\<not> success (failure_response err)"
  by (simp add: failure_response_def)

lemma mark_face_submission_fails:
  assumes "submission_fails retries photo registry"
  shows "\<exists>err. mark_face_submission threshold retries persist photo registry store
           = (failure_response err, store)"
  using assms
  by (auto simp: submission_fails_iff mark_face_submission_def split: option.splits)

lemma mark_face_submission_completes:
  assumes "\<not> submission_fails retries photo registry"
  shows "\<exists>n answers. photo = Some n \<and> length answers = n
           \<and> query_with_retries retries registry 0 n = Some answers
           \<and> mark_face_submission threshold retries persist photo registry store
              = (submission_response threshold answers,
                 persist (assignment_resolver (collect_candidates threshold answers)) store)"
  using assms query_with_retries_length
  by (auto simp: submission_fails_iff mark_face_submission_def split: option.splits)

subsection \<open>The examples, evaluated\<close>

lemma contested_resolved:
  "assignment_resolver contested_candidates =
     [\<lparr>face_index = 0, identity_id = ''B'', similarity_score = 0.95\<rparr>,
      \<lparr>face_index = 1, identity_id = ''A'', similarity_score = 0.8\<rparr>]"
  by (simp add: assignment_resolver_def resolution_order_def resolution_key_def contested_candidates_def)

lemma tied_resolved:
  "assignment_resolver tied_candidates =
     [\<lparr>face_index = 0, identity_id = ''C'', similarity_score = 0.9\<rparr>]"
  by (simp add: assignment_resolver_def resolution_order_def resolution_key_def tied_candidates_def)

lemma scenario_collected:
  "collect_candidates 0.6 scenario_answers =
     [\<lparr>face_index = 0, identity_id = ''A'', similarity_score = 0.82\<rparr>,
      \<lparr>face_index = 1, identity_id = ''B'', similarity_score = 0.65\<rparr>]"
  by (simp add: collect_candidates_def similarity_matcher_def scenario_answers_def enumerate_eq_zip upt_rec)

lemma scenario_resolved:
  "assignment_resolver (collect_candidates 0.6 scenario_answers) =
     [\<lparr>face_index = 0, identity_id = ''A'', similarity_score = 0.82\<rparr>,
      \<lparr>face_index = 1, identity_id = ''B'', similarity_score = 0.65\<rparr>]"
  by (simp only: scenario_collected)
     (simp add: assignment_resolver_def resolution_order_def resolution_key_def)

lemma spec_conflict_resolved:
  "assignment_resolver spec_conflict_candidates =
     [\<lparr>face_index = 1, identity_id = ''C'', similarity_score = 0.90\<rparr>]"
  by (simp add: assignment_resolver_def resolution_order_def resolution_key_def
      spec_conflict_candidates_def)

lemma registry_up_batch: "query_with_retries 2 registry_up 0 3 = Some scenario_answers"
  by (simp add: numeral_2_eq_2 query_batch_def registry_up_def scenario_answers_def upt_rec)

lemma scenario_submission:
  "mark_face_submission 0.6 2 append_matches (Some 3) registry_up [] =
     (submission_response 0.6 scenario_answers,
      [\<lparr>face_index = 0, identity_id = ''A'', similarity_score = 0.82\<rparr>,
       \<lparr>face_index = 1, identity_id = ''B'', similarity_score = 0.65\<rparr>])"
  by (simp only: mark_face_submission_def registry_up_batch option.case scenario_resolved
      append_matches_def append_Nil)

lemma scenario_response:
  "submission_response 0.6 scenario_answers =
     \<lparr>success = True, res_student_id = None, res_similarity_score = None,
      faces_detected = 3, faces_recognized = 2, faces_unrecognized = 1,
      recognized_students =
        Some [\<lparr>face_index = 0, identity_id = ''A'', similarity_score = 0.82\<rparr>,
              \<lparr>face_index = 1, identity_id = ''B'', similarity_score = 0.65\<rparr>],
      unrecognized_faces = Some [2], message = ''Attendance processed''\<rparr>"
  by (simp only: submission_response_def scenario_resolved Let_def)
     (simp add: scenario_answers_def upt_rec)

lemma registry_down_fails: "submission_fails 2 (Some 3) registry_down"
  by (simp add: submission_fails_def registry_down_def list_all_iff list_ex_iff)

section \<open>Properties of the attendance page\<close>

text \<open>
  Claim C9. For every student id and every status, the manual toggle \<^verbatim>\<open>markAttendance\<close>
  changes only that student's entry of the attendance map: every other key keeps its
  record (and its place), the roster and the face results are untouched. The changed
  record has the given status and the method \<^verbatim>\<open>manual\<close>, and it keeps the
  \<^verbatim>\<open>confidence_score\<close> (and \<^verbatim>\<open>student_id\<close>) the old record had, for instance one set by face
  recognition.
\<close>

theorem markAttendance_frame:
  "(\<forall>k. k \<noteq> studentId \<longrightarrow>
       map_of (attendance (markAttendance studentId st s)) k = map_of (attendance s) k)
   \<and> filter (\<lambda>p. fst p \<noteq> studentId) (attendance (markAttendance studentId st s))
       = filter (\<lambda>p. fst p \<noteq> studentId) (attendance s)
   \<and> (\<exists>r. map_of (attendance (markAttendance studentId st s)) studentId = Some r
          \<and> status r = st \<and> att_method r = manual
          \<and> confidence_score r =
              (case map_of (attendance s) studentId of None \<Rightarrow> None
               | Some old \<Rightarrow> confidence_score old)
          \<and> student_id r =
              (case map_of (attendance s) studentId of None \<Rightarrow> None
               | Some old \<Rightarrow> student_id old))
   \<and> students (markAttendance studentId st s) = students s
   \<and> faceResults (markAttendance studentId st s) = faceResults s"
  by (auto simp: markAttendance_def update_conv' filter_update_other marked_record_def
      split: option.splits)

theorem markAttendance_frame_witness:
  "''B'' \<noteq> ''A''
   \<and> map_of (attendance (markAttendance ''A'' late recognized_state)) ''B''
       = map_of (attendance recognized_state) ''B''
   \<and> map_of (attendance recognized_state) ''A''
       = Some \<lparr>student_id = Some ''A'', status = present, att_method = face_recognition,
               confidence_score = Some 0.82\<rparr>
   \<and> map_of (attendance (markAttendance ''A'' late recognized_state)) ''A''
       = Some \<lparr>student_id = Some ''A'', status = late, att_method = manual,
               confidence_score = Some 0.82\<rparr>"
proof -
  note frame = markAttendance_frame [of "''A''" late recognized_state]
  have ne: "''B'' \<noteq> ''A''" by simp
  have other: "map_of (attendance (markAttendance ''A'' late recognized_state)) ''B''
                 = map_of (attendance recognized_state) ''B''"
    by (rule frame [THEN conjunct1, rule_format, OF ne])
  have old: "map_of (attendance recognized_state) ''A''
               = Some \<lparr>student_id = Some ''A'', status = present,
                       att_method = face_recognition, confidence_score = Some 0.82\<rparr>"
    by (simp add: recognized_state_eq)
  from frame [THEN conjunct2, THEN conjunct2, THEN conjunct1] obtain r where
    r: "map_of (attendance (markAttendance ''A'' late recognized_state)) ''A'' = Some r"
      "status r = late" "att_method r = manual"
      "confidence_score r =
         (case map_of (attendance recognized_state) ''A'' of None \<Rightarrow> None
          | Some old \<Rightarrow> confidence_score old)"
      "student_id r =
         (case map_of (attendance recognized_state) ''A'' of None \<Rightarrow> None
          | Some old \<Rightarrow> student_id old)"
    by (elim exE conjE)
  from r(2-5) have "r = \<lparr>student_id = Some ''A'', status = late, att_method = manual,
                         confidence_score = Some 0.82\<rparr>"
    by (simp add: old)
  with r(1) ne other old show ?thesis by simp
qed

text \<open>
  Claim C10. In every state of the page the two displayed counters add up to the number
  of enrolled students, because the absent counter is the roster length minus the
  present counter. When the map holds one record per enrolled student, the absent
  counter is therefore the number of records marked \<^verbatim>\<open>absent\<close> plus the number marked
  \<^verbatim>\<open>late\<close>: a late student is displayed as absent.
\<close>

theorem counters_sum:
  "presentCount s + absentCount s = int (length (students s))
   \<and> (length (attendance s) = length (students s) \<longrightarrow>
        absentCount s =
          int (length (filter (\<lambda>a. status a = absent) (map snd (attendance s))))
          + int (length (filter (\<lambda>a. status a = late) (map snd (attendance s)))))"
proof -
  have "length (filter (\<lambda>a. status a = present) (map snd (attendance s)))
        + length (filter (\<lambda>a. status a = absent) (map snd (attendance s)))
        + length (filter (\<lambda>a. status a = late) (map snd (attendance s)))
        = length (attendance s)"
    using length_filter_status [of "map snd (attendance s)"] by simp
  then show ?thesis
    by (auto simp: absentCount_def presentCount_def)
qed

theorem counters_sum_witness:
  "length (attendance (markAttendance ''B'' late recognized_state))
     = length (students (markAttendance ''B'' late recognized_state))
   \<and> map (\<lambda>p. status (snd p)) (attendance (markAttendance ''B'' late recognized_state))
       = [present, late]
   \<and> presentCount (markAttendance ''B'' late recognized_state) = 1
   \<and> absentCount (markAttendance ''B'' late recognized_state) = 1
   \<and> presentCount (markAttendance ''B'' late recognized_state)
       + absentCount (markAttendance ''B'' late recognized_state) = 2"
proof -
  have st: "attendance (markAttendance ''B'' late recognized_state) =
      [(''A'', \<lparr>student_id = Some ''A'', status = present, att_method = face_recognition,
                confidence_score = Some 0.82\<rparr>),
       (''B'', \<lparr>student_id = Some ''B'', status = late, att_method = manual,
                confidence_score = None\<rparr>)]"
    and ro: "students (markAttendance ''B'' late recognized_state) = [alice, bob]"
    by (simp_all add: markAttendance_def recognized_state_eq marked_record_def)
  have len: "length (attendance (markAttendance ''B'' late recognized_state))
     = length (students (markAttendance ''B'' late recognized_state))"
    by (simp add: st ro)
  from counters_sum [of "markAttendance ''B'' late recognized_state"] len
  have "presentCount (markAttendance ''B'' late recognized_state)
          + absentCount (markAttendance ''B'' late recognized_state) = 2"
    and "absentCount (markAttendance ''B'' late recognized_state) = 1"
    by (simp_all add: st ro)
  then show ?thesis using len by (simp add: st)
qed

text \<open>
  Claim C1. The claim asks that after a successful submission every identity listed in
  \<^verbatim>\<open>recognized_students\<close> is marked present by face recognition with its own score. The
  handler updates one key only, the top-level \<^verbatim>\<open>result.student_id\<close>; the list is read for
  logging. For the group photo below, in which Alice and Bob are both recognized, Bob's
  record is still the initial one (absent, manual, no score) after the handler has run.
\<close>

theorem handleFaceRecognition_marks_one_identity:
  "success group_photo_results
   \<and> recognized_students group_photo_results =
       Some [\<lparr>face_index = 0, identity_id = ''A'', similarity_score = 0.82\<rparr>,
             \<lparr>face_index = 1, identity_id = ''B'', similarity_score = 0.65\<rparr>]
   \<and> map_of (attendance
        (handleFaceRecognition True (responded True group_photo_results) roster_state)) ''B''
       = Some \<lparr>student_id = Some ''B'', status = absent, att_method = manual,
               confidence_score = None\<rparr>"
  using recognized_state_eq
  by (simp add: recognized_state_def) (simp add: group_photo_results_def)




section \<open>Properties of the attendance table\<close>

text \<open>
  Claim C3. Whatever statements have run against an empty table, at most one row is
  stored for a class, an identity and a date: the composite key is unique. A second mark
  for a key that already has a row never adds one: a plain \<^verbatim>\<open>INSERT\<close> fails and the
  conflict-skipping form does nothing, so the table is as before.
\<close>

theorem attendance_key_unique:
  "length (rows_for class_id identity d (execute_all stmts [])) \<le> 1
   \<and> (rows_for class_id identity d tbl \<noteq> [] \<and> subject_id new = Some class_id
        \<and> row_student_id new = Some identity \<and> date new = d \<longrightarrow>
        (\<exists>err. insert_row new tbl = Inl err)
        \<and> insert_on_conflict_do_nothing new tbl = Inr tbl
        \<and> execute_all [INSERT new] tbl = tbl
        \<and> execute_all [INSERT_ON_CONFLICT_DO_NOTHING new] tbl = tbl)"
proof (intro conjI impI)
  show "length (rows_for class_id identity d (execute_all stmts [])) \<le> 1"
    using execute_all_unique [of class_id identity d "[]" stmts] by (simp add: rows_for_def)
next
  assume h: "rows_for class_id identity d tbl \<noteq> [] \<and> subject_id new = Some class_id
        \<and> row_student_id new = Some identity \<and> date new = d"
  then have col: "list_ex (key_collides new) tbl"
    using collides_if_row_present by blast
  show "\<exists>err. insert_row new tbl = Inl err"
    using col by (simp add: insert_row_def)
  show "insert_on_conflict_do_nothing new tbl = Inr tbl"
    using col by (simp add: insert_on_conflict_do_nothing_def)
  show "execute_all [INSERT new] tbl = tbl"
    using col by (simp add: execute_def insert_row_def)
  show "execute_all [INSERT_ON_CONFLICT_DO_NOTHING new] tbl = tbl"
    using col by (simp add: execute_def insert_on_conflict_do_nothing_def)
qed

theorem attendance_key_unique_witness:
  "execute_all [INSERT first_mark] [] = [first_mark]
   \<and> rows_for ''CS101'' ''A'' ''2025-09-01'' [first_mark] = [first_mark]
   \<and> subject_id second_mark = Some ''CS101'' \<and> row_student_id second_mark = Some ''A''
   \<and> date second_mark = ''2025-09-01''
   \<and> insert_row second_mark [first_mark] = Inl unique_violation_key
   \<and> insert_on_conflict_do_nothing second_mark [first_mark] = Inr [first_mark]
   \<and> execute_all [INSERT first_mark, INSERT second_mark,
                   INSERT_ON_CONFLICT_DO_NOTHING second_mark] [] = [first_mark]
   \<and> length (rows_for ''CS101'' ''A'' ''2025-09-01''
        (execute_all [INSERT first_mark, INSERT second_mark,
                      INSERT_ON_CONFLICT_DO_NOTHING second_mark] [])) \<le> 1"
proof -
  have rows: "rows_for ''CS101'' ''A'' ''2025-09-01'' [first_mark] = [first_mark]"
    by (simp add: rows_for_def first_mark_def)
  have key: "subject_id second_mark = Some ''CS101''" "row_student_id second_mark = Some ''A''"
    "date second_mark = ''2025-09-01''"
    by (simp_all add: second_mark_def)
  have pre: "rows_for ''CS101'' ''A'' ''2025-09-01'' [first_mark] \<noteq> []
      \<and> subject_id second_mark = Some ''CS101'' \<and> row_student_id second_mark = Some ''A''
      \<and> date second_mark = ''2025-09-01''"
    using rows key by simp
  note t = attendance_key_unique [of "''CS101''" "''A''" "''2025-09-01''"
      "[INSERT first_mark, INSERT second_mark, INSERT_ON_CONFLICT_DO_NOTHING second_mark]"
      "[first_mark]" second_mark]
  from t pre have skip: "insert_on_conflict_do_nothing second_mark [first_mark] = Inr [first_mark]"
    and same: "execute_all [INSERT second_mark] [first_mark] = [first_mark]"
    and len: "length (rows_for ''CS101'' ''A'' ''2025-09-01''
        (execute_all [INSERT first_mark, INSERT second_mark,
                      INSERT_ON_CONFLICT_DO_NOTHING second_mark] [])) \<le> 1"
    by blast+
  have fails: "insert_row second_mark [first_mark] = Inl unique_violation_key"
    by (simp add: insert_row_def key_collides_def first_mark_def second_mark_def)
  have first: "execute_all [INSERT first_mark] [] = [first_mark]"
    by (simp add: execute_def insert_row_def)
  have all3: "execute_all [INSERT first_mark, INSERT second_mark,
                   INSERT_ON_CONFLICT_DO_NOTHING second_mark] [] = [first_mark]"
    using fails skip by (simp add: execute_def insert_row_def)
  from first rows key fails skip all3 len show ?thesis by simp
qed

section \<open>Properties of the documented face matcher\<close>

text \<open>
  Claim C5, as stated, fails on the documented matcher. The claim keeps a candidate if and
  only if its similarity score is at least the threshold. \<^verbatim>\<open>compare_faces\<close> compares a
  distance, and strictly: with the default threshold 0.6 it accepts an encoding at
  distance 0.5, whose similarity \<open>1 - 0.5\<close> is below 0.6; and with threshold 0.6 it
  rejects an encoding at distance exactly 0.6, although its similarity 0.4 reaches
  \<open>1 - 0.6\<close>.
\<close>

theorem compare_faces_not_similarity_threshold:
  "compare_faces euclidean_distance [[1/2]] [0] None = [True]
   \<and> euclidean_distance [[1/2]] [0] = [1/2]
   \<and> similarity_of_distance (1/2) < default_threshold
   \<and> compare_faces euclidean_distance [[6/10]] [0] (Some (6/10)) = [False]
   \<and> 1 - 6/10 \<le> similarity_of_distance (6/10)"
  by (simp add: compare_faces_def euclidean_distance_1d default_threshold_def
      similarity_of_distance_def)

text \<open>
  Claim C5, amended. \<^verbatim>\<open>compare_faces\<close> answers one boolean per known encoding, and accepts
  an encoding if and only if its face distance is strictly below the threshold; the
  threshold is an argument of the call and is 0.6 when the caller gives none. In terms of
  the similarity \<open>1 - distance\<close>: an encoding is accepted if and only if its similarity is
  strictly above \<open>1 - threshold\<close>.
\<close>

theorem compare_faces_accepts:
  "length (compare_faces face_distance known enc threshold) = length (face_distance known enc)
   \<and> (\<forall>i < length (face_distance known enc).
        (compare_faces face_distance known enc threshold ! i
           \<longleftrightarrow> face_distance known enc ! i < (case threshold of None \<Rightarrow> 0.6 | Some t \<Rightarrow> t))
        \<and> (compare_faces face_distance known enc threshold ! i
           \<longleftrightarrow> similarity_of_distance (face_distance known enc ! i)
                 > 1 - (case threshold of None \<Rightarrow> 0.6 | Some t \<Rightarrow> t)))"
  by (auto simp: compare_faces_def default_threshold_def similarity_of_distance_def Let_def
      split: option.splits)

theorem compare_faces_accepts_witness:
  "(0::nat) < length (euclidean_distance [[3/10]] [0])
   \<and> euclidean_distance [[3/10]] [0] ! 0 = 3/10
   \<and> compare_faces euclidean_distance [[3/10]] [0] (Some (1/2)) ! 0
   \<and> similarity_of_distance (euclidean_distance [[3/10]] [0] ! 0) > 1 - 1/2"
proof -
  have len: "(0::nat) < length (euclidean_distance [[3/10]] [0])"
    by (simp add: euclidean_distance_1d)
  have d: "euclidean_distance [[3/10]] [0] ! 0 = 3/10"
    by (simp add: euclidean_distance_1d)
  note accepts = compare_faces_accepts [of euclidean_distance "[[3/10]]" "[0]" "Some (1/2)"]
  from accepts len
  have a: "compare_faces euclidean_distance [[3/10]] [0] (Some (1/2)) ! 0
          \<longleftrightarrow> euclidean_distance [[3/10]] [0] ! 0 < (case Some (1/2) of None \<Rightarrow> 0.6 | Some t \<Rightarrow> t)"
    by blast
  from accepts len
  have b: "compare_faces euclidean_distance [[3/10]] [0] (Some (1/2)) ! 0
          \<longleftrightarrow> similarity_of_distance (euclidean_distance [[3/10]] [0] ! 0)
                > 1 - (case Some (1/2) of None \<Rightarrow> 0.6 | Some t \<Rightarrow> t)"
    by blast
  from a d have acc: "compare_faces euclidean_distance [[3/10]] [0] (Some (1/2)) ! 0"
    by simp
  with b have "similarity_of_distance (euclidean_distance [[3/10]] [0] ! 0) > 1 - 1/2"
    by simp
  with len d acc show ?thesis by simp
qed

section \<open>Properties of the matching pipeline\<close>

text \<open>
  Claim C2, as stated, fails on the greedy resolver: when several candidates compete for
  the same identity, the one with the highest score need not win. Alice's best candidate
  is face 0 with 0.9, but face 0 goes to Bob (0.95), and Alice is credited to face 1 with
  0.8.
\<close>

theorem best_candidate_can_lose:
  "\<not> best_candidate_wins contested_candidates (assignment_resolver contested_candidates)"
  by (simp add: contested_resolved best_candidate_wins_def) (simp add: contested_candidates_def)

text \<open>
  Claim C2, amended. The resolver's output is one-to-one: no identity and no face index
  appears twice in it, and every match in it is one of the candidates. A candidate is
  dropped only when an accepted match with a score at least as high holds its face or its
  identity, and a candidate whose score is strictly above every other candidate's is
  always accepted. The \<^verbatim>\<open>recognized_students\<close> of a completed submission are the resolver's
  output.
\<close>

theorem assignment_resolver_one_to_one:
  "distinct (map identity_id (assignment_resolver cs))
   \<and> distinct (map face_index (assignment_resolver cs))
   \<and> set (assignment_resolver cs) \<subseteq> set cs
   \<and> (\<forall>c \<in> set cs. c \<notin> set (assignment_resolver cs) \<longrightarrow>
        (\<exists>r \<in> set (assignment_resolver cs).
           (face_index r = face_index c \<or> identity_id r = identity_id c)
           \<and> similarity_score c \<le> similarity_score r))
   \<and> (\<forall>c \<in> set cs. (\<forall>c' \<in> set cs. c' \<noteq> c \<longrightarrow> similarity_score c' < similarity_score c)
        \<longrightarrow> c \<in> set (assignment_resolver cs))
   \<and> recognized_students (submission_response threshold answers)
       = Some (assignment_resolver (collect_candidates threshold answers))"
proof (intro conjI ballI impI)
  show "distinct (map identity_id (assignment_resolver cs))"
    by (rule assignment_resolver_distinct_ids)
  show "distinct (map face_index (assignment_resolver cs))"
    by (rule assignment_resolver_distinct_faces)
  show "set (assignment_resolver cs) \<subseteq> set cs"
    by (rule assignment_resolver_subset)
  show "recognized_students (submission_response threshold answers)
       = Some (assignment_resolver (collect_candidates threshold answers))"
    by (simp add: submission_response_def Let_def)
next
  fix c assume c: "c \<in> set cs" "c \<notin> set (assignment_resolver cs)"
  from assignment_resolver_dominated [OF c] obtain r where
    r: "r \<in> set (assignment_resolver cs)"
      "face_index r = face_index c \<or> identity_id r = identity_id c"
      "resolution_key r \<le> resolution_key c"
    by blast
  from r(3) have "similarity_score c \<le> similarity_score r"
    by (auto simp: resolution_key_le_iff)
  with r(1,2) show "\<exists>r \<in> set (assignment_resolver cs).
           (face_index r = face_index c \<or> identity_id r = identity_id c)
           \<and> similarity_score c \<le> similarity_score r"
    by blast
next
  fix c assume c: "c \<in> set cs"
    and top: "\<forall>c' \<in> set cs. c' \<noteq> c \<longrightarrow> similarity_score c' < similarity_score c"
  show "c \<in> set (assignment_resolver cs)"
  proof (rule ccontr)
    assume out: "c \<notin> set (assignment_resolver cs)"
    from assignment_resolver_dominated [OF c out] obtain r where
      r: "r \<in> set (assignment_resolver cs)" "resolution_key r \<le> resolution_key c"
      by blast
    from r(1) out have "r \<noteq> c" by auto
    moreover from r(1) have "r \<in> set cs" using assignment_resolver_subset by blast
    ultimately have "similarity_score r < similarity_score c" using top by blast
    with r(2) show False by (auto simp: resolution_key_le_iff)
  qed
qed

theorem assignment_resolver_one_to_one_witness:
  "\<lparr>face_index = 0, identity_id = ''C'', similarity_score = 0.75\<rparr> \<in> set spec_conflict_candidates
   \<and> \<lparr>face_index = 0, identity_id = ''C'', similarity_score = 0.75\<rparr>
        \<notin> set (assignment_resolver spec_conflict_candidates)
   \<and> (\<exists>r \<in> set (assignment_resolver spec_conflict_candidates).
         (face_index r = 0 \<or> identity_id r = ''C'') \<and> 0.75 \<le> similarity_score r)
   \<and> assignment_resolver spec_conflict_candidates =
        [\<lparr>face_index = 1, identity_id = ''C'', similarity_score = 0.90\<rparr>]"
proof -
  let ?c = "\<lparr>face_index = 0, identity_id = ''C'', similarity_score = 0.75\<rparr>"
  have inp: "?c \<in> set spec_conflict_candidates"
    by (simp add: spec_conflict_candidates_def)
  have out: "?c \<notin> set (assignment_resolver spec_conflict_candidates)"
    by (simp add: spec_conflict_resolved)
  note t = assignment_resolver_one_to_one [of spec_conflict_candidates 0 "[]"]
  from t have "\<forall>c \<in> set spec_conflict_candidates.
        c \<notin> set (assignment_resolver spec_conflict_candidates) \<longrightarrow>
        (\<exists>r \<in> set (assignment_resolver spec_conflict_candidates).
           (face_index r = face_index c \<or> identity_id r = identity_id c)
           \<and> similarity_score c \<le> similarity_score r)"
    by (elim conjE)
  from this [rule_format, OF inp out]
  have "\<exists>r \<in> set (assignment_resolver spec_conflict_candidates).
         (face_index r = 0 \<or> identity_id r = ''C'') \<and> 0.75 \<le> similarity_score r"
    by simp
  with inp out spec_conflict_resolved show ?thesis by simp
qed

text \<open>
  Claim C8. The assignment is a function of the candidates of the submission alone and
  does not depend on the order in which they were collected: two runs on the same
  candidates, listed in any order, give the same assignment. The candidates are visited
  by descending score, ties by ascending face index and then by ascending identity, and a
  dropped candidate always lost to an accepted match that comes strictly before it in
  that order.
\<close>

theorem assignment_resolver_deterministic:
  "(mset cs' = mset cs \<longrightarrow> assignment_resolver cs' = assignment_resolver cs)
   \<and> mset (resolution_order cs) = mset cs
   \<and> sorted_wrt (\<lambda>a b. similarity_score b < similarity_score a \<or>
                   similarity_score b = similarity_score a \<and>
                     (face_index a < face_index b \<or>
                      face_index a = face_index b \<and> identity_id a \<le> identity_id b))
        (resolution_order cs)
   \<and> (\<forall>c \<in> set cs. c \<notin> set (assignment_resolver cs) \<longrightarrow>
        (\<exists>r \<in> set (assignment_resolver cs).
           (face_index r = face_index c \<or> identity_id r = identity_id c) \<and>
           (similarity_score c < similarity_score r \<or>
            similarity_score c = similarity_score r \<and>
              (face_index r < face_index c \<or>
               face_index r = face_index c \<and> identity_id r < identity_id c))))"
proof (intro conjI ballI impI)
  assume "mset cs' = mset cs"
  then have "resolution_order cs' = resolution_order cs"
    by (rule resolution_order_permutation)
  then show "assignment_resolver cs' = assignment_resolver cs"
    by (simp only: assignment_resolver_def)
next
  show "mset (resolution_order cs) = mset cs" by (rule resolution_order_mset)
next
  have "sorted_wrt (\<lambda>a b. resolution_key a \<le> resolution_key b) (resolution_order cs)"
    using resolution_order_sorted [of cs] by (simp add: sorted_wrt_map)
  then show "sorted_wrt (\<lambda>a b. similarity_score b < similarity_score a \<or>
                   similarity_score b = similarity_score a \<and>
                     (face_index a < face_index b \<or>
                      face_index a = face_index b \<and> identity_id a \<le> identity_id b))
        (resolution_order cs)"
    by (simp add: resolution_key_le_iff)
next
  fix c assume c: "c \<in> set cs" "c \<notin> set (assignment_resolver cs)"
  from assignment_resolver_dominated [OF c] obtain r where
    r: "r \<in> set (assignment_resolver cs)"
      "face_index r = face_index c \<or> identity_id r = identity_id c"
      "resolution_key r \<le> resolution_key c"
    by blast
  from r(1) c(2) have "r \<noteq> c" by auto
  then have "resolution_key r \<noteq> resolution_key c"
    using resolution_key_inj by (auto dest: injD)
  with r(3) have "resolution_key r < resolution_key c" by (rule le_neq_trans)
  then have "similarity_score c < similarity_score r \<or>
            similarity_score c = similarity_score r \<and>
              (face_index r < face_index c \<or>
               face_index r = face_index c \<and> identity_id r < identity_id c)"
    by (simp only: resolution_key_less_iff)
  with r(1,2) show "\<exists>r \<in> set (assignment_resolver cs).
           (face_index r = face_index c \<or> identity_id r = identity_id c) \<and>
           (similarity_score c < similarity_score r \<or>
            similarity_score c = similarity_score r \<and>
              (face_index r < face_index c \<or>
               face_index r = face_index c \<and> identity_id r < identity_id c))"
    by blast
qed

theorem assignment_resolver_deterministic_witness:
  "mset (rev tied_candidates) = mset tied_candidates
   \<and> rev tied_candidates \<noteq> tied_candidates
   \<and> assignment_resolver (rev tied_candidates) = assignment_resolver tied_candidates
   \<and> assignment_resolver tied_candidates =
        [\<lparr>face_index = 0, identity_id = ''C'', similarity_score = 0.9\<rparr>]"
proof -
  have perm: "mset (rev tied_candidates) = mset tied_candidates" by simp
  have ne: "rev tied_candidates \<noteq> tied_candidates" by (simp add: tied_candidates_def)
  from assignment_resolver_deterministic [of "rev tied_candidates" tied_candidates] perm
  have "assignment_resolver (rev tied_candidates) = assignment_resolver tied_candidates"
    by (elim conjE) simp
  with perm ne tied_resolved show ?thesis by simp
qed

text \<open>
  Claim C6. A completed submission with \<open>N\<close> detected faces reports \<open>N\<close> as
  \<^verbatim>\<open>faces_detected\<close>, and \<^verbatim>\<open>faces_recognized + faces_unrecognized = N\<close>; with no face all
  three counters are zero. The equation between the three counters also holds for the
  response of a failed submission and for the object the client stores after a network
  error.
\<close>

theorem submission_counts:
  "faces_detected (submission_response threshold answers) = int (length answers)
   \<and> faces_recognized (submission_response threshold answers)
       + faces_unrecognized (submission_response threshold answers) = int (length answers)
   \<and> faces_detected (submission_response threshold []) = 0
   \<and> faces_recognized (submission_response threshold []) = 0
   \<and> faces_unrecognized (submission_response threshold []) = 0
   \<and> faces_recognized (fst (mark_face_submission threshold retries persist photo registry store))
       + faces_unrecognized (fst (mark_face_submission threshold retries persist photo registry store))
       = faces_detected (fst (mark_face_submission threshold retries persist photo registry store))
   \<and> (photo = Some n \<and> success (fst (mark_face_submission threshold retries persist photo registry store))
        \<longrightarrow> faces_detected (fst (mark_face_submission threshold retries persist photo registry store))
              = int n)
   \<and> faces_recognized network_error_results + faces_unrecognized network_error_results
       = faces_detected network_error_results"
proof (intro conjI impI)
  show det: "faces_detected (submission_response threshold answers) = int (length answers)"
    by (simp add: submission_response_def Let_def)
  show "faces_recognized (submission_response threshold answers)
       + faces_unrecognized (submission_response threshold answers) = int (length answers)"
    by (rule submission_response_counts)
  show "faces_detected (submission_response threshold []) = 0"
    by (simp add: submission_response_def Let_def)
  show "faces_recognized (submission_response threshold []) = 0"
    by (simp add: submission_response_def Let_def assignment_resolver_def resolution_order_def
        collect_candidates_def)
  show "faces_unrecognized (submission_response threshold []) = 0"
    by (simp add: submission_response_def Let_def)
  show "faces_recognized network_error_results + faces_unrecognized network_error_results
       = faces_detected network_error_results"
    by (simp add: network_error_results_def)
next
  let ?resp = "fst (mark_face_submission threshold retries persist photo registry store)"
  show "faces_recognized ?resp + faces_unrecognized ?resp = faces_detected ?resp"
  proof (cases "submission_fails retries photo registry")
    case True
    from mark_face_submission_fails [OF True, of threshold persist store]
    obtain err where "?resp = failure_response err" by auto
    then show ?thesis by (simp add: failure_response_def)
  next
    case False
    from mark_face_submission_completes [OF False, of threshold persist store]
    obtain answers' where "?resp = submission_response threshold answers'" by auto
    then show ?thesis
      using submission_response_counts [of threshold answers']
      by (simp add: submission_response_def Let_def)
  qed
next
  let ?resp = "fst (mark_face_submission threshold retries persist photo registry store)"
  assume h: "photo = Some n \<and> success ?resp"
  have "\<not> submission_fails retries photo registry"
  proof
    assume "submission_fails retries photo registry"
    from mark_face_submission_fails [OF this, of threshold persist store]
    obtain err where "?resp = failure_response err" by auto
    with h show False by (simp add: success_failure_response)
  qed
  from mark_face_submission_completes [OF this, of threshold persist store] h
  obtain answers' where "length answers' = n" "?resp = submission_response threshold answers'"
    by auto
  then show "faces_detected ?resp = int n"
    by (simp add: submission_response_def Let_def)
qed

theorem submission_counts_witness:
  "success (fst (mark_face_submission 0.6 2 append_matches (Some 3) registry_up []))
   \<and> faces_detected (fst (mark_face_submission 0.6 2 append_matches (Some 3) registry_up [])) = 3
   \<and> faces_recognized (fst (mark_face_submission 0.6 2 append_matches (Some 3) registry_up [])) = 2
   \<and> faces_unrecognized (fst (mark_face_submission 0.6 2 append_matches (Some 3) registry_up [])) = 1
   \<and> recognized_students (fst (mark_face_submission 0.6 2 append_matches (Some 3) registry_up []))
       = Some [\<lparr>face_index = 0, identity_id = ''A'', similarity_score = 0.82\<rparr>,
               \<lparr>face_index = 1, identity_id = ''B'', similarity_score = 0.65\<rparr>]"
proof -
  let ?resp = "fst (mark_face_submission 0.6 2 append_matches (Some 3) registry_up [])"
  have resp: "?resp = submission_response 0.6 scenario_answers"
    by (simp only: scenario_submission fst_conv)
  have ok: "success ?resp" by (simp only: resp success_submission_response)
  note t = submission_counts [of "0.6" scenario_answers 2 append_matches "Some 3" registry_up "[]" 3]
  from t ok have det: "faces_detected ?resp = 3" by simp
  from t have sum: "faces_recognized ?resp + faces_unrecognized ?resp = faces_detected ?resp"
    by (elim conjE)
  have rec: "faces_recognized ?resp = 2" by (simp only: resp scenario_response) simp
  from sum det rec have "faces_unrecognized ?resp = 1" by simp
  moreover have "recognized_students ?resp
       = Some [\<lparr>face_index = 0, identity_id = ''A'', similarity_score = 0.82\<rparr>,
               \<lparr>face_index = 1, identity_id = ''B'', similarity_score = 0.65\<rparr>]"
    by (simp only: resp scenario_response) simp
  ultimately show ?thesis using ok det rec by simp
qed

text \<open>
  Claim C7. A submission that fails as a whole (invalid image, or registry unavailable
  through every retry) answers \<^verbatim>\<open>success=false\<close> and leaves the store as it was, and the
  attendance map of the page is unchanged after the handler has processed that answer,
  whatever the HTTP status; \<^verbatim>\<open>success\<close> is false exactly for the failed submissions. On
  the client alone: any answer that is not both \<^verbatim>\<open>response.ok\<close> and \<^verbatim>\<open>success\<close> leaves the map
  unchanged, and so does a request that throws, after which the stored result has
  \<^verbatim>\<open>success=false\<close>.
\<close>

theorem failed_submission_changes_nothing:
  "(submission_fails retries photo registry \<longrightarrow>
      \<not> success (fst (mark_face_submission threshold retries persist photo registry store))
      \<and> snd (mark_face_submission threshold retries persist photo registry store) = store
      \<and> attendance (handleFaceRecognition file_chosen
            (responded ok (fst (mark_face_submission threshold retries persist photo registry store))) s)
          = attendance s)
   \<and> (success (fst (mark_face_submission threshold retries persist photo registry store))
        \<longleftrightarrow> \<not> submission_fails retries photo registry)
   \<and> (\<not> (ok \<and> success result) \<longrightarrow>
        attendance (handleFaceRecognition file_chosen (responded ok result) s) = attendance s)
   \<and> attendance (handleFaceRecognition file_chosen fetch_throws s) = attendance s
   \<and> faceResults (handleFaceRecognition True fetch_throws s) = Some network_error_results
   \<and> \<not> success network_error_results"
proof (intro conjI impI)
  let ?out = "mark_face_submission threshold retries persist photo registry store"
  assume f: "submission_fails retries photo registry"
  from mark_face_submission_fails [OF f, of threshold persist store]
  obtain err where out: "?out = (failure_response err, store)" by blast
  show ns: "\<not> success (fst ?out)" by (simp add: out success_failure_response)
  show "snd ?out = store" by (simp add: out)
  show "attendance (handleFaceRecognition file_chosen (responded ok (fst ?out)) s) = attendance s"
    using ns by (simp add: attendance_handleFaceRecognition)
next
  let ?out = "mark_face_submission threshold retries persist photo registry store"
  show "success (fst ?out) \<longleftrightarrow> \<not> submission_fails retries photo registry"
  proof (cases "submission_fails retries photo registry")
    case True
    from mark_face_submission_fails [OF True, of threshold persist store]
    obtain err where "?out = (failure_response err, store)" by blast
    then show ?thesis using True by (simp add: success_failure_response)
  next
    case False
    from mark_face_submission_completes [OF False, of threshold persist store]
    obtain answers where "fst ?out = submission_response threshold answers" by auto
    then show ?thesis using False by (simp add: success_submission_response)
  qed
next
  assume "\<not> (ok \<and> success result)"
  then show "attendance (handleFaceRecognition file_chosen (responded ok result) s) = attendance s"
    by (auto simp: attendance_handleFaceRecognition)
next
  show "attendance (handleFaceRecognition file_chosen fetch_throws s) = attendance s"
    by (simp add: attendance_handleFaceRecognition)
  show "faceResults (handleFaceRecognition True fetch_throws s) = Some network_error_results"
    by (simp add: handleFaceRecognition_def)
  show "\<not> success network_error_results"
    by (simp add: network_error_results_def)
qed

theorem failed_submission_changes_nothing_witness:
  "submission_fails 2 (Some 3) registry_down
   \<and> \<not> success (fst (mark_face_submission 0.6 2 append_matches (Some 3) registry_down []))
   \<and> snd (mark_face_submission 0.6 2 append_matches (Some 3) registry_down []) = []
   \<and> attendance (handleFaceRecognition True
        (responded True (fst (mark_face_submission 0.6 2 append_matches (Some 3) registry_down [])))
        roster_state) = attendance roster_state
   \<and> snd (mark_face_submission 0.6 2 append_matches (Some 3) registry_up []) =
        [\<lparr>face_index = 0, identity_id = ''A'', similarity_score = 0.82\<rparr>,
         \<lparr>face_index = 1, identity_id = ''B'', similarity_score = 0.65\<rparr>]"
proof -
  note t = failed_submission_changes_nothing [of 2 "Some 3" registry_down "0.6" append_matches "[]"
      True True roster_state]
  from t [THEN conjunct1, rule_format, OF registry_down_fails]
  have "\<not> success (fst (mark_face_submission 0.6 2 append_matches (Some 3) registry_down []))
   \<and> snd (mark_face_submission 0.6 2 append_matches (Some 3) registry_down []) = []
   \<and> attendance (handleFaceRecognition True
        (responded True (fst (mark_face_submission 0.6 2 append_matches (Some 3) registry_down [])))
        roster_state) = attendance roster_state" .
  moreover have "snd (mark_face_submission 0.6 2 append_matches (Some 3) registry_up []) =
        [\<lparr>face_index = 0, identity_id = ''A'', similarity_score = 0.82\<rparr>,
         \<lparr>face_index = 1, identity_id = ''B'', similarity_score = 0.65\<rparr>]"
    by (simp only: scenario_submission snd_conv)
  ultimately show ?thesis using registry_down_fails by simp
qed

end
